theory Spec2Isabelle
  imports Complex_Main "HOL-Library.Sublist" "HOL-Library.AList"
begin

section \<open>Python values used by the assistant core\<close>

text \<open>
  A Python \<open>str\<close> is a \<open>string\<close>: the UTF-8 bytes of the text. The membership test
  \<open>kw in text\<close> of two strings is \<open>sublist kw text\<close>; UTF-8 is self-synchronising, so a
  match on the bytes is a match on the code points. The methods \<open>str.lower\<close>,
  \<open>str.capitalize\<close> and \<open>str.strip\<close> belong to the interpreter and follow the Unicode
  tables: they are parameters of the model, passed as one record.
\<close>

record str_methods =
  lower :: "string \<Rightarrow> string"
  capitalize :: "string \<Rightarrow> string"
  strip :: "string \<Rightarrow> string"

text \<open>
  The exceptions are the instances of Python's \<open>Exception\<close>, which is what every
  \<open>except Exception\<close> of the source catches. \<open>TimeoutError\<close> is \<open>asyncio.TimeoutError\<close>
  (one class with the builtin since Python 3.11), \<open>Exception\<close> stands for every other
  subclass. Interpreter signals outside \<open>Exception\<close> (\<open>KeyboardInterrupt\<close>, \<open>SystemExit\<close>,
  cancellation of the calling task) are not modelled.
\<close>

datatype py_exc =
    TimeoutError string
  | AttributeError string
  | TypeError string
  | JSONDecodeError string
  | Exception string

text \<open>\<open>str(e)\<close>: the message the exception was built with.\<close>

fun str_exc :: "py_exc \<Rightarrow> string" where
  "str_exc (TimeoutError m) = m"
| "str_exc (AttributeError m) = m"
| "str_exc (TypeError m) = m"
| "str_exc (JSONDecodeError m) = m"
| "str_exc (Exception m) = m"

text \<open>A call either raises (\<open>Inl\<close>) or returns (\<open>Inr\<close>).\<close>

type_synonym 'a outcome = "py_exc + 'a"

text \<open>\<open>str(n)\<close> of an integer, as the f-strings print it.\<close>

definition digit_char :: "nat \<Rightarrow> char" where
  "digit_char d = ''0123456789'' ! d"

fun str_nat :: "nat \<Rightarrow> string" where
  "str_nat n = (if n < 10 then [digit_char n] else str_nat (n div 10) @ [digit_char (n mod 10)])"

definition str_int :: "int \<Rightarrow> string" where
  "str_int i = (if i < 0 then CHR ''-'' # str_nat (nat (- i)) else str_nat (nat i))"

text \<open>The non-ASCII characters of the messages, in UTF-8.\<close>

definition cross_mark :: string where
  "cross_mark = [CHR 0xE2, CHR 0x9D, CHR 0x8C]"

definition stopwatch :: string where
  "stopwatch = [CHR 0xE2, CHR 0x8F, CHR 0xB1, CHR 0xEF, CHR 0xB8, CHR 0x8F]"

definition thinking_face :: string where
  "thinking_face = [CHR 0xF0, CHR 0x9F, CHR 0xA4, CHR 0x94]"

section \<open>BaseSkill\<close>

text \<open>
  What a run leaves behind besides its return value: the records written to the skill's
  logger and the coroutines it awaited, in order. The log records keep the arguments of
  the message, not its text.
\<close>

datatype event =
    Warning_validation_failed
  | Info_running string string
  | Info_finished string
  | Error_timeout string
  | Error_execution_failure string py_exc
  | Warning_hook_failed string py_exc
  | Awaited_on_start string
  | Awaited_execute string
  | Awaited_on_finish string string
  | Awaited_on_error string py_exc

text \<open>
  A lifecycle hook is a method of the skill class. A subclass may override it with
  \<open>async def\<close> (a coroutine function) or with a plain \<open>def\<close>; either way it has a body,
  which returns or raises when it runs.
\<close>

datatype 'a hook =
    Coroutine_function "'a \<Rightarrow> unit outcome"
  | Plain_function "'a \<Rightarrow> unit outcome"

text \<open>
  \<open>execute\<close> is a coroutine. The event loop, and with it the timer of
  \<open>asyncio.wait_for\<close>, gets a turn only while the coroutine is suspended at an \<open>await\<close>.
  \<open>Blocking t r\<close> never suspends (its body has no \<open>await\<close> that waits): it keeps the loop
  for \<open>t\<close> seconds and is done with \<open>r\<close>. \<open>Awaiting a t r\<close> suspends: it is suspended
  for the last time until \<open>a\<close> seconds after its start and done with \<open>r\<close> after \<open>t\<close>
  seconds, \<open>a \<le> t\<close>. \<open>Awaiting_forever\<close> stays suspended. A body that keeps the loop for
  ever is not modelled: \<open>run\<close> does not return from it.
\<close>

datatype coroutine =
    Blocking real "string outcome"
  | Awaiting real real "string outcome"
  | Awaiting_forever

text \<open>
  \<open>validate_input\<close> is the method of \<open>BaseSkill\<close> unless the subclass overrides it.
\<close>

datatype validator =
    Base_validate_input
  | Override_validate_input "string \<Rightarrow> bool outcome"

record skill =
  name :: string
  "keywords" :: "string list"
  timeout :: int
  execution_count :: nat
  logger :: "event list"
  validate_input_method :: validator
  check_configuration :: "bool outcome"
  execute :: "string \<Rightarrow> coroutine"
  on_start :: "string hook"
  on_finish :: "(string \<times> string) hook"
  on_error :: "(string \<times> py_exc) hook"

definition emit :: "event list \<Rightarrow> skill \<Rightarrow> skill" where
  "emit es sk = sk\<lparr>logger := logger sk @ es\<rparr>"

text \<open>\<open>BaseSkill.validate_input\<close>: \<open>bool(args and args.strip())\<close>, with a warning when false.\<close>

definition base_validate_input :: "str_methods \<Rightarrow> skill \<Rightarrow> string \<Rightarrow> skill \<times> bool" where
  "base_validate_input B sk args =
     (let is_valid = (args \<noteq> [] \<and> strip B args \<noteq> [])
      in if \<not> is_valid then (emit [Warning_validation_failed] sk, is_valid)
         else (sk, is_valid))"

definition validate_input :: "str_methods \<Rightarrow> skill \<Rightarrow> string \<Rightarrow> skill \<times> bool outcome" where
  "validate_input B sk args =
     (case validate_input_method sk of
        Base_validate_input \<Rightarrow>
          (case base_validate_input B sk args of (sk', b) \<Rightarrow> (sk', Inr b))
      | Override_validate_input f \<Rightarrow> (sk, f args))"

text \<open>\<open>BaseSkill.format_error\<close>.\<close>

definition format_error :: "str_methods \<Rightarrow> skill \<Rightarrow> string \<Rightarrow> string" where
  "format_error B sk message =
     cross_mark @ '' **'' @ capitalize B (name sk) @ '' Error:** '' @ message"

text \<open>
  \<open>BaseSkill._safe_hook\<close>: the hook is awaited only when
  \<open>asyncio.iscoroutinefunction(hook)\<close>; an exception of the hook is logged and dropped.
  \<open>hname\<close> is \<open>hook.__name__\<close>, \<open>awaited\<close> the trace entry of the call.
\<close>

definition safe_hook :: "'a hook \<Rightarrow> string \<Rightarrow> event \<Rightarrow> 'a \<Rightarrow> skill \<Rightarrow> skill" where
  "safe_hook h hname awaited a sk =
     (case h of
        Coroutine_function body \<Rightarrow>
          (case body a of
             Inr _ \<Rightarrow> emit [awaited] sk
           | Inl e \<Rightarrow> emit [awaited, Warning_hook_failed hname e] sk)
      | Plain_function body \<Rightarrow> sk)"

text \<open>\<open>timeout or self.timeout\<close>: Python's \<open>or\<close> yields its left operand when it is truthy.\<close>

definition actual_timeout :: "int option \<Rightarrow> skill \<Rightarrow> int" where
  "actual_timeout tmo sk =
     (case tmo of
        None \<Rightarrow> timeout sk
      | Some t \<Rightarrow> if t \<noteq> 0 then t else timeout sk)"

text \<open>
  \<open>asyncio.wait_for(coro, timeout=d)\<close>. With \<open>d \<le> 0\<close> the coroutine is cancelled before it
  starts. Otherwise the timer cancels the coroutine at the first moment from \<open>d\<close> seconds
  on at which it is suspended, and \<open>wait_for\<close> raises \<open>TimeoutError\<close>; a coroutine that is
  not suspended from then on runs to its end, and \<open>wait_for\<close> gives its result or its
  exception, however late. The cancelled coroutine is taken to let the cancellation
  through.
\<close>

definition wait_for :: "coroutine \<Rightarrow> int \<Rightarrow> string outcome" where
  "wait_for c d =
     (if d \<le> 0 then Inl (TimeoutError [])
      else case c of
             Blocking t r \<Rightarrow> r
           | Awaiting a t r \<Rightarrow> if real_of_int d < a then Inl (TimeoutError []) else r
           | Awaiting_forever \<Rightarrow> Inl (TimeoutError []))"



definition timeout_message :: "skill \<Rightarrow> int \<Rightarrow> string" where
  "timeout_message sk d =
     stopwatch @ '' Timeout: '' @ [CHR 0x27] @ name sk @ [CHR 0x27] @ '' exceeded ''
       @ str_int d @ ''s limit.''"

text \<open>The three ways out of the \<open>try\<close> statement of \<open>run\<close>.\<close>

definition success_path :: "skill \<Rightarrow> string \<Rightarrow> string \<Rightarrow> skill \<times> string outcome" where
  "success_path sk args result =
     (let sk1 = safe_hook (on_finish sk) ''on_finish'' (Awaited_on_finish args result)
                  (args, result) sk;
          sk2 = sk1\<lparr>execution_count := execution_count sk1 + 1\<rparr>;
          sk3 = emit [Info_finished (name sk2)] sk2
      in (sk3, Inr result))"

definition timeout_path :: "str_methods \<Rightarrow> skill \<Rightarrow> string \<Rightarrow> int \<Rightarrow> skill \<times> string outcome" where
  "timeout_path B sk args d =
     (let msg = timeout_message sk d;
          sk1 = emit [Error_timeout msg] sk;
          sk2 = safe_hook (on_error sk1) ''on_error'' (Awaited_on_error args (TimeoutError msg))
                  (args, TimeoutError msg) sk1
      in (sk2, Inr (format_error B sk2 msg)))"

definition error_path :: "str_methods \<Rightarrow> skill \<Rightarrow> string \<Rightarrow> py_exc \<Rightarrow> skill \<times> string outcome" where
  "error_path B sk args e =
     (let sk1 = emit [Error_execution_failure (name sk) e] sk;
          sk2 = safe_hook (on_error sk1) ''on_error'' (Awaited_on_error args e) (args, e) sk1
      in (sk2, Inr (format_error B sk2 (''An unexpected error occurred: '' @ str_exc e))))"

text \<open>\<open>BaseSkill.run\<close>.\<close>

definition run :: "str_methods \<Rightarrow> skill \<Rightarrow> string \<Rightarrow> int option \<Rightarrow> skill \<times> string outcome" where
  "run B sk args tmo =
     (case validate_input B sk args of
        (sk0, Inl e) \<Rightarrow> (sk0, Inl e)
      | (sk0, Inr False) \<Rightarrow> (sk0, Inr (format_error B sk0 ''Input is empty or invalid.''))
      | (sk0, Inr True) \<Rightarrow>
          (case check_configuration sk0 of
             Inl e \<Rightarrow> (sk0, Inl e)
           | Inr False \<Rightarrow>
               (sk0, Inr (format_error B sk0
                  ''Configuration check failed (Missing API Keys or Setup).''))
           | Inr True \<Rightarrow>
               (let d = actual_timeout tmo sk0;
                    sk1 = safe_hook (on_start sk0) ''on_start'' (Awaited_on_start args) args sk0;
                    sk2 = emit [Info_running (name sk1) args, Awaited_execute args] sk1
                in case wait_for (execute sk2 args) d of
                     Inr result \<Rightarrow> success_path sk2 args result
                   | Inl (TimeoutError m) \<Rightarrow> timeout_path B sk2 args d
                   | Inl e \<Rightarrow> error_path B sk2 args e)))"

section \<open>DataManager: the persistent context\<close>

text \<open>
  The values of the context memory: what \<open>json.load\<close> returns (\<open>None\<close>, booleans,
  integers, finite floats, strings, lists and dictionaries with string keys) and the
  tuples that a skill may store, which \<open>json.dump\<close> accepts too. A dictionary is an
  association list in insertion order, with one entry per key.
\<close>

datatype json =
    JNull
  | JBool bool
  | JInt int
  | JFloat real
  | JStr string
  | JArr "json list"
  | JTuple "json list"
  | JObj "(string \<times> json) list"

text \<open>
  The \<open>json\<close> module is a parameter: \<open>json_dump\<close> is the text that
  \<open>json.dump(v, f, ensure_ascii=False, indent=2)\<close> writes, \<open>json_load\<close> what \<open>json.load\<close>
  makes of a text, \<open>JSONDecodeError\<close> included. \<open>'f\<close> is the type of file contents.
\<close>

record 'f json_module =
  json_dump :: "json \<Rightarrow> 'f"
  json_load :: "'f \<Rightarrow> json outcome"






text \<open>
  \<open>context_file\<close> is the file at the path of that name: \<open>None\<close> when it does not exist.
  \<open>brain.context_memory\<close> and \<open>data_manager.context_memory\<close> are one dictionary object in
  the source, so the model keeps the one field.
\<close>

record 'f data_manager =
  context_memory :: json
  context_file :: "'f option"


text \<open>
  What the file system does with one \<open>open(..., "w")\<close> and the writes that follow is an
  input of \<open>save_context\<close>: all written, \<open>open\<close> raised (the file is as before), or a
  write raised after \<open>open\<close> had truncated the file (it holds what was written so far).
\<close>

datatype 'f write_result =
    Written
  | Open_raised
  | Write_raised 'f

text \<open>\<open>DataManager.save_context\<close>: every exception is logged and dropped.\<close>

definition save_context :: "'f json_module \<Rightarrow> 'f write_result \<Rightarrow> 'f data_manager \<Rightarrow> 'f data_manager" where
  "save_context J w dm =
     (case w of
        Written \<Rightarrow> dm\<lparr>context_file := Some (json_dump J (context_memory dm))\<rparr>
      | Open_raised \<Rightarrow> dm
      | Write_raised partial \<Rightarrow> dm\<lparr>context_file := Some partial\<rparr>)"

section \<open>AssistantBrain\<close>

text \<open>\<open>d[k] = v\<close>, \<open>d.get(k, default)\<close>, \<open>xs.append(x)\<close> and \<open>xs[-n:]\<close> on loaded values.\<close>

fun setitem :: "json \<Rightarrow> string \<Rightarrow> json \<Rightarrow> json outcome" where
  "setitem (JObj kvs) k v = Inr (JObj (AList.update k v kvs))"
| "setitem j k v = Inl (TypeError ''object does not support item assignment'')"

fun get_default :: "json \<Rightarrow> string \<Rightarrow> json \<Rightarrow> json outcome" where
  "get_default (JObj kvs) k d = Inr (case map_of kvs k of Some v \<Rightarrow> v | None \<Rightarrow> d)"
| "get_default j k d = Inl (AttributeError ''object has no attribute get'')"

fun append :: "json \<Rightarrow> json \<Rightarrow> json list outcome" where
  "append (JArr xs) x = Inr (xs @ [x])"
| "append j x = Inl (AttributeError ''object has no attribute append'')"

definition last_n :: "nat \<Rightarrow> 'a list \<Rightarrow> 'a list" where
  "last_n n xs = drop (length xs - n) xs"

definition turn :: "string \<Rightarrow> string \<Rightarrow> json" where
  "turn user_input result = JObj [(''user'', JStr user_input), (''assistant'', JStr result)]"

text \<open>
  \<open>AssistantBrain._update_memory\<close>. An exception leaves the assignments made before it in
  the dictionary and skips the save.
\<close>

definition update_memory ::
  "'f json_module \<Rightarrow> 'f write_result \<Rightarrow> 'f data_manager \<Rightarrow> string \<Rightarrow> string \<Rightarrow> string
     \<Rightarrow> 'f data_manager \<times> unit outcome" where
  "update_memory J w dm skill_name user_input result =
     (case setitem (context_memory dm) ''last_action'' (JStr skill_name) of
        Inl e \<Rightarrow> (dm, Inl e)
      | Inr m1 \<Rightarrow>
     (case setitem m1 ''last_result'' (JStr result) of
        Inl e \<Rightarrow> (dm\<lparr>context_memory := m1\<rparr>, Inl e)
      | Inr m2 \<Rightarrow>
     (case get_default m2 ''conversation_history'' (JArr []) of
        Inl e \<Rightarrow> (dm\<lparr>context_memory := m2\<rparr>, Inl e)
      | Inr history \<Rightarrow>
     (case append history (turn user_input result) of
        Inl e \<Rightarrow> (dm\<lparr>context_memory := m2\<rparr>, Inl e)
      | Inr history' \<Rightarrow>
     (case setitem m2 ''conversation_history'' (JArr (last_n 10 history')) of
        Inl e \<Rightarrow> (dm\<lparr>context_memory := m2\<rparr>, Inl e)
      | Inr m3 \<Rightarrow> (save_context J w (dm\<lparr>context_memory := m3\<rparr>), Inr ()))))))"

text \<open>
  \<open>skill_objects\<close> is the dictionary that \<open>load_skills\<close> returns, in insertion order, which
  is the order of registration; every skill is an instance of a subclass of \<open>BaseSkill\<close>,
  as the skills of the repository are.
\<close>

record 'f brain =
  data_manager :: "'f data_manager"
  skill_objects :: "(string \<times> skill) list"
  intent_map :: "(string \<times> string list) list"

text \<open>\<open>AssistantBrain._build_intent_map\<close>.\<close>

definition build_intent_map :: "(string \<times> skill) list \<Rightarrow> (string \<times> string list) list" where
  "build_intent_map skills = map (\<lambda>(skill_name, sk). (skill_name, keywords sk)) skills"

text \<open>\<open>AssistantBrain.detect_intent\<close>, on the items of the intent map.\<close>

fun detect_intent :: "(string \<times> string list) list \<Rightarrow> string \<Rightarrow> string option" where
  "detect_intent [] text = None"
| "detect_intent ((skill_name, kws) # rest) text =
     (if list_ex (\<lambda>kw. sublist kw text) kws then Some skill_name
      else detect_intent rest text)"

fun join :: "string \<Rightarrow> string list \<Rightarrow> string" where
  "join sep [] = []"
| "join sep [x] = x"
| "join sep (x # y # ys) = x @ sep @ join sep (y # ys)"

definition help_message :: "str_methods \<Rightarrow> 'f brain \<Rightarrow> string" where
  "help_message B br =
     thinking_face @ '' I didn't understand that. I can currently help with: **''
       @ join '', '' (map (\<lambda>s. capitalize B s) (map fst (skill_objects br))) @ ''**''"

definition not_loaded_message :: "string \<Rightarrow> string" where
  "not_loaded_message intent =
     cross_mark @ '' System Error: Intent '' @ [CHR 0x27] @ intent @ [CHR 0x27]
       @ '' detected, but module is not loaded.''"

definition internal_error_message :: "skill \<Rightarrow> string" where
  "internal_error_message sk =
     cross_mark @ '' An internal error occurred while processing via '' @ name sk @ ''.''"

text \<open>
  \<open>AssistantBrain.route_to_skill\<close>. \<open>run\<close> changes the skill object in place; the model
  stores the changed skill back under its key.
\<close>

definition route_to_skill ::
  "str_methods \<Rightarrow> 'f json_module \<Rightarrow> 'f write_result \<Rightarrow> 'f brain \<Rightarrow> string \<Rightarrow> skill \<Rightarrow> string
     \<Rightarrow> 'f brain \<times> string outcome" where
  "route_to_skill B J w br key sk args =
     (case run B sk args None of
        (sk', Inl e) \<Rightarrow>
          (br\<lparr>skill_objects := AList.update key sk' (skill_objects br)\<rparr>,
           Inr (internal_error_message sk'))
      | (sk', Inr result) \<Rightarrow>
          (let br1 = br\<lparr>skill_objects := AList.update key sk' (skill_objects br)\<rparr>
           in case update_memory J w (data_manager br1) (name sk') args result of
                (dm', Inl e) \<Rightarrow> (br1\<lparr>data_manager := dm'\<rparr>, Inr (internal_error_message sk'))
              | (dm', Inr u) \<Rightarrow> (br1\<lparr>data_manager := dm'\<rparr>, Inr result)))"

text \<open>\<open>AssistantBrain.process_input\<close>. \<open>not intent\<close> holds for \<open>None\<close> and for the empty name.\<close>

definition process_input ::
  "str_methods \<Rightarrow> 'f json_module \<Rightarrow> 'f write_result \<Rightarrow> 'f brain \<Rightarrow> string
     \<Rightarrow> 'f brain \<times> string outcome" where
  "process_input B J w br text =
     (let text_lower = lower B text
      in case detect_intent (intent_map br) text_lower of
           None \<Rightarrow> (br, Inr (help_message B br))
         | Some intent \<Rightarrow>
             if intent = [] then (br, Inr (help_message B br))
             else (case map_of (skill_objects br) intent of
                     None \<Rightarrow> (br, Inr (not_loaded_message intent))
                   | Some sk \<Rightarrow> route_to_skill B J w br intent sk text))"

section \<open>Observing a run\<close>

text \<open>
  What one call of \<open>_safe_hook\<close> appends to the logger, and what one call of \<open>run\<close>
  appends to it: the entries after those that were there before the call.
\<close>

definition hook_events :: "'a hook \<Rightarrow> string \<Rightarrow> event \<Rightarrow> 'a \<Rightarrow> event list" where
  "hook_events h hname awaited a =
     (case h of
        Coroutine_function body \<Rightarrow>
          (case body a of Inr u \<Rightarrow> [awaited] | Inl e \<Rightarrow> [awaited, Warning_hook_failed hname e])
      | Plain_function body \<Rightarrow> [])"

definition run_events :: "str_methods \<Rightarrow> skill \<Rightarrow> string \<Rightarrow> int option \<Rightarrow> event list" where
  "run_events B sk args tmo = drop (length (logger sk)) (logger (fst (run B sk args tmo)))"

text \<open>
  Each way out of the \<open>try\<close> statement writes its own log record: \<open>Info_finished\<close> at the
  end of the \<open>try\<close> body, \<open>Error_timeout\<close> in the handler of \<open>asyncio.TimeoutError\<close>,
  \<open>Error_execution_failure\<close> in the handler of \<open>Exception\<close>. \<open>paths_executed\<close> counts
  how many of the three left their record in a list of events.
\<close>

definition is_success_mark :: "event \<Rightarrow> bool" where
  "is_success_mark ev = (case ev of Info_finished n \<Rightarrow> True | _ \<Rightarrow> False)"

definition is_timeout_mark :: "event \<Rightarrow> bool" where
  "is_timeout_mark ev = (case ev of Error_timeout m \<Rightarrow> True | _ \<Rightarrow> False)"

definition is_error_mark :: "event \<Rightarrow> bool" where
  "is_error_mark ev = (case ev of Error_execution_failure n e \<Rightarrow> True | _ \<Rightarrow> False)"

definition paths_executed :: "event list \<Rightarrow> nat" where
  "paths_executed es =
     (if list_ex is_success_mark es then 1 else 0)
     + (if list_ex is_timeout_mark es then 1 else 0)
     + (if list_ex is_error_mark es then 1 else 0)"

text \<open>Both guards of \<open>run\<close> let the call through to the \<open>try\<close> statement.\<close>

definition passes_checks :: "str_methods \<Rightarrow> skill \<Rightarrow> string \<Rightarrow> bool" where
  "passes_checks B sk args =
     (snd (validate_input B sk args) = Inr True \<and> check_configuration sk = Inr True)"

text \<open>The entries of the trace that are calls of a hook or of \<open>execute\<close>.\<close>

definition is_on_start_call :: "event \<Rightarrow> bool" where
  "is_on_start_call ev = (case ev of Awaited_on_start a \<Rightarrow> True | _ \<Rightarrow> False)"

definition is_on_finish_call :: "event \<Rightarrow> bool" where
  "is_on_finish_call ev = (case ev of Awaited_on_finish a r \<Rightarrow> True | _ \<Rightarrow> False)"

definition is_on_error_call :: "event \<Rightarrow> bool" where
  "is_on_error_call ev = (case ev of Awaited_on_error a e \<Rightarrow> True | _ \<Rightarrow> False)"

definition is_execute_call :: "event \<Rightarrow> bool" where
  "is_execute_call ev = (case ev of Awaited_execute a \<Rightarrow> True | _ \<Rightarrow> False)"


definition is_hook_failure :: "event \<Rightarrow> bool" where
  "is_hook_failure ev = (case ev of Warning_hook_failed n e \<Rightarrow> True | _ \<Rightarrow> False)"

text \<open>The same skill with hooks of the same kind whose bodies return.\<close>

definition returning :: "'a hook \<Rightarrow> 'a hook" where
  "returning h =
     (case h of
        Coroutine_function body \<Rightarrow> Coroutine_function (\<lambda>a. Inr ())
      | Plain_function body \<Rightarrow> Plain_function (\<lambda>a. Inr ()))"

definition with_returning_hooks :: "skill \<Rightarrow> skill" where
  "with_returning_hooks sk =
     sk\<lparr>on_start := returning (on_start sk), on_finish := returning (on_finish sk),
        on_error := returning (on_error sk)\<rparr>"

section \<open>Observing the brain\<close>

text \<open>\<open>any(kw in text for kw in keywords)\<close>, as a predicate.\<close>

definition has_keyword :: "string \<Rightarrow> string list \<Rightarrow> bool" where
  "has_keyword text kws = (\<exists>kw\<in>set kws. sublist kw text)"

text \<open>
  The stored conversation history, read as the front end reads it,
  \<open>context_memory.get("conversation_history", [])\<close>: \<open>None\<close> when the memory is not a
  dictionary or the entry is not a list.
\<close>

definition history :: "'f data_manager \<Rightarrow> json list option" where
  "history dm =
     (case context_memory dm of
        JObj kvs \<Rightarrow>
          (case map_of kvs ''conversation_history'' of
             None \<Rightarrow> Some []
           | Some (JArr h) \<Rightarrow> Some h
           | Some v \<Rightarrow> None)
      | v \<Rightarrow> None)"

text \<open>
  The calls of \<open>_update_memory\<close> of a sequence of turns, one after the other; each turn
  comes with what the file system does with its save.
\<close>

fun update_memory_turns ::
  "'f json_module \<Rightarrow> 'f data_manager \<Rightarrow> ('f write_result \<times> string \<times> string \<times> string) list
     \<Rightarrow> 'f data_manager \<times> unit outcome" where
  "update_memory_turns J dm [] = (dm, Inr ())"
| "update_memory_turns J dm ((w, skill_name, user_input, result) # ts) =
     (case update_memory J w dm skill_name user_input result of
        (dm', Inl e) \<Rightarrow> (dm', Inl e)
      | (dm', Inr u) \<Rightarrow> update_memory_turns J dm' ts)"

definition turn_of :: "'f write_result \<times> string \<times> string \<times> string \<Rightarrow> json" where
  "turn_of t = (case t of (w, skill_name, user_input, result) \<Rightarrow> turn user_input result)"



section \<open>Examples\<close>

text \<open>
  The string methods on ASCII text, and the two skills of the specification's example
  scenario: \<open>echo\<close> returns its input, \<open>fail\<close> raises. \<open>slow\<close> awaits for a minute and
  overrides \<open>on_error\<close> with a plain function; \<open>relay\<close> is \<open>slow\<close> with an \<open>on_error\<close>
  coroutine that raises the error it is given; \<open>busy\<close> computes for a minute without an
  \<open>await\<close>; the \<open>on_start\<close> and \<open>on_finish\<close> of \<open>grumpy\<close> raise.
\<close>

definition lower_char :: "char \<Rightarrow> char" where
  "lower_char c =
     (case map_of (zip ''ABCDEFGHIJKLMNOPQRSTUVWXYZ'' ''abcdefghijklmnopqrstuvwxyz'') c of
        Some l \<Rightarrow> l | None \<Rightarrow> c)"

definition upper_char :: "char \<Rightarrow> char" where
  "upper_char c =
     (case map_of (zip ''abcdefghijklmnopqrstuvwxyz'' ''ABCDEFGHIJKLMNOPQRSTUVWXYZ'') c of
        Some u \<Rightarrow> u | None \<Rightarrow> c)"

definition space_char :: "char \<Rightarrow> bool" where
  "space_char c = (c \<in> set [CHR 0x09, CHR 0x0A, CHR 0x0B, CHR 0x0C, CHR 0x0D,
                            CHR 0x1C, CHR 0x1D, CHR 0x1E, CHR 0x1F, CHR 0x20])"

definition ascii_str :: str_methods where
  "ascii_str =
     \<lparr>lower = map lower_char,
      capitalize = (\<lambda>s. case s of [] \<Rightarrow> [] | c # cs \<Rightarrow> upper_char c # map lower_char cs),
      strip = (\<lambda>s. rev (dropWhile space_char (rev (dropWhile space_char s))))\<rparr>"

text \<open>The hooks of \<open>BaseSkill\<close>: \<open>async def\<close> with the body \<open>pass\<close>.\<close>

definition base_hook :: "'a hook" where
  "base_hook = Coroutine_function (\<lambda>a. Inr ())"

definition echo_skill :: skill where
  "echo_skill =
     \<lparr>name = ''echo'', keywords = [''echo''], timeout = 15, execution_count = 0, logger = [],
      validate_input_method = Base_validate_input, check_configuration = Inr True,
      execute = (\<lambda>args. Blocking 0 (Inr args)),
      on_start = base_hook, on_finish = base_hook, on_error = base_hook\<rparr>"

definition fail_skill :: skill where
  "fail_skill =
     echo_skill\<lparr>name := ''fail'', keywords := [''boom''],
       execute := (\<lambda>args. Blocking 0 (Inl (Exception ''boom'')))\<rparr>"

definition slow_skill :: skill where
  "slow_skill =
     echo_skill\<lparr>name := ''slow'', keywords := [''wait''],
       execute := (\<lambda>args. Awaiting 60 60 (Inr args)),
       on_error := Plain_function (\<lambda>a. Inl (Exception ''on_error ran''))\<rparr>"



definition grumpy_skill :: skill where
  "grumpy_skill =
     echo_skill\<lparr>on_start := Coroutine_function (\<lambda>a. Inl (Exception ''start failed'')),
                on_finish := Coroutine_function (\<lambda>a. Inl (TypeError ''finish failed''))\<rparr>"

text \<open>
  A \<open>json\<close> module whose files hold the value itself, a brain with three skills and an
  empty memory, a brain whose context file held a list instead of a dictionary, fifteen
  turns, a memory in which a skill has stored a tuple and a memory of JSON values.
\<close>

definition keep_json :: "json json_module" where
  "keep_json = \<lparr>json_dump = (\<lambda>v. v), json_load = (\<lambda>f. Inr f)\<rparr>"

definition demo_brain :: "json brain" where
  "demo_brain =
     \<lparr>data_manager = \<lparr>context_memory = JObj [], context_file = None\<rparr>,
      skill_objects = [(''echo'', echo_skill), (''fail'', fail_skill), (''slow'', slow_skill)],
      intent_map =
        build_intent_map [(''echo'', echo_skill), (''fail'', fail_skill), (''slow'', slow_skill)]\<rparr>"


definition fifteen_turns :: "(json write_result \<times> string \<times> string \<times> string) list" where
  "fifteen_turns =
     map (\<lambda>i. (Written, ''echo'', ''echo '' @ str_nat i, ''echo '' @ str_nat i)) [1..<16]"



section \<open>The structure of a run\<close>

lemma emit_fields [simp]:
  "name (emit es sk) = name sk"
  "keywords (emit es sk) = keywords sk"
  "timeout (emit es sk) = timeout sk"
  "execution_count (emit es sk) = execution_count sk"
  "logger (emit es sk) = logger sk @ es"
  "validate_input_method (emit es sk) = validate_input_method sk"
  "check_configuration (emit es sk) = check_configuration sk"
  "execute (emit es sk) = execute sk"
  "on_start (emit es sk) = on_start sk"
  "on_finish (emit es sk) = on_finish sk"
  "on_error (emit es sk) = on_error sk"
  by (simp_all add: emit_def)

lemma emit_emit [simp]: "emit es (emit ds sk) = emit (ds @ es) sk"
  by (simp add: emit_def)

lemma emit_Nil [simp]: "emit [] sk = sk"
  by (simp add: emit_def)

lemma emit_count [simp]:
  "emit es (sk\<lparr>execution_count := n\<rparr>) = (emit es sk)\<lparr>execution_count := n\<rparr>"
  by (simp add: emit_def)

lemma safe_hook_emit: "safe_hook h hname awaited a sk = emit (hook_events h hname awaited a) sk"
  by (simp add: safe_hook_def hook_events_def split: hook.splits sum.splits)

lemma validate_input_emit:
  "validate_input B sk args = (sk0, r) \<Longrightarrow>
     sk0 = emit (if validate_input_method sk = Base_validate_input \<and> r = Inr False
                 then [Warning_validation_failed] else []) sk"
  by (auto simp: validate_input_def base_validate_input_def Let_def split: validator.splits if_splits)

lemma run_passed:
  assumes "snd (validate_input B sk args) = Inr True" "check_configuration sk = Inr True"
  shows "run B sk args tmo =
     (let d = actual_timeout tmo sk;
          es = hook_events (on_start sk) ''on_start'' (Awaited_on_start args) args
                 @ [Info_running (name sk) args, Awaited_execute args]
      in case wait_for (execute sk args) d of
           Inr result \<Rightarrow>
             ((emit (es @ hook_events (on_finish sk) ''on_finish'' (Awaited_on_finish args result)
                     (args, result) @ [Info_finished (name sk)]) sk)
                \<lparr>execution_count := execution_count sk + 1\<rparr>, Inr result)
         | Inl (TimeoutError m) \<Rightarrow>
             (emit (es @ [Error_timeout (timeout_message sk d)]
                    @ hook_events (on_error sk) ''on_error''
                        (Awaited_on_error args (TimeoutError (timeout_message sk d)))
                        (args, TimeoutError (timeout_message sk d))) sk,
              Inr (format_error B sk (timeout_message sk d)))
         | Inl e \<Rightarrow>
             (emit (es @ [Error_execution_failure (name sk) e]
                    @ hook_events (on_error sk) ''on_error'' (Awaited_on_error args e) (args, e)) sk,
              Inr (format_error B sk (''An unexpected error occurred: '' @ str_exc e))))"
proof -
  obtain sk0 where v: "validate_input B sk args = (sk0, Inr True)"
    using assms(1) by (cases "validate_input B sk args") auto
  from validate_input_emit[OF v] have sk0: "sk0 = sk" by simp
  show ?thesis
    unfolding run_def v sk0
    by (simp add: assms(2) Let_def success_path_def timeout_path_def error_path_def
          safe_hook_emit format_error_def timeout_message_def actual_timeout_def
        split: sum.splits py_exc.splits)
qed

lemma validate_input_snd:
  "snd (validate_input B sk args) =
     (case validate_input_method sk of
        Base_validate_input \<Rightarrow> Inr (args \<noteq> [] \<and> strip B args \<noteq> [])
      | Override_validate_input f \<Rightarrow> f args)"
  by (simp add: validate_input_def base_validate_input_def Let_def split: validator.splits)

lemma validate_input_fst:
  "fst (validate_input B sk args) =
     emit (if validate_input_method sk = Base_validate_input
              \<and> snd (validate_input B sk args) = Inr False
           then [Warning_validation_failed] else []) sk"
  using validate_input_emit[of B sk args "fst (validate_input B sk args)" "snd (validate_input B sk args)"]
  by simp

lemma validate_input_count [simp]:
  "execution_count (fst (validate_input B sk args)) = execution_count sk"
  by (simp add: validate_input_fst)

lemma run_invalid:
  assumes "snd (validate_input B sk args) = Inr False"
  shows "run B sk args tmo =
     (fst (validate_input B sk args), Inr (format_error B sk ''Input is empty or invalid.''))"
proof -
  obtain sk0 where v: "validate_input B sk args = (sk0, Inr False)"
    using assms by (cases "validate_input B sk args") auto
  from validate_input_emit[OF v] have "name sk0 = name sk" by simp
  then show ?thesis by (simp add: run_def v format_error_def)
qed

lemma run_validate_raises:
  assumes "snd (validate_input B sk args) = Inl e"
  shows "run B sk args tmo = (sk, Inl e)"
proof -
  obtain sk0 where v: "validate_input B sk args = (sk0, Inl e)"
    using assms by (cases "validate_input B sk args") auto
  from validate_input_emit[OF v] have "sk0 = sk" by simp
  then show ?thesis by (simp add: run_def v)
qed

lemma run_not_configured:
  assumes "snd (validate_input B sk args) = Inr True" "check_configuration sk = Inr False"
  shows "run B sk args tmo =
     (sk, Inr (format_error B sk ''Configuration check failed (Missing API Keys or Setup).''))"
proof -
  obtain sk0 where v: "validate_input B sk args = (sk0, Inr True)"
    using assms(1) by (cases "validate_input B sk args") auto
  from validate_input_emit[OF v] have "sk0 = sk" by simp
  then show ?thesis by (simp add: run_def v assms(2))
qed

lemma run_configuration_raises:
  assumes "snd (validate_input B sk args) = Inr True" "check_configuration sk = Inl e"
  shows "run B sk args tmo = (sk, Inl e)"
proof -
  obtain sk0 where v: "validate_input B sk args = (sk0, Inr True)"
    using assms(1) by (cases "validate_input B sk args") auto
  from validate_input_emit[OF v] have "sk0 = sk" by simp
  then show ?thesis by (simp add: run_def v assms(2))
qed

lemma hook_events_marks [simp]:
  "\<not> list_ex is_success_mark (hook_events h n (Awaited_on_start a) x)"
  "\<not> list_ex is_timeout_mark (hook_events h n (Awaited_on_start a) x)"
  "\<not> list_ex is_error_mark (hook_events h n (Awaited_on_start a) x)"
  "\<not> list_ex is_success_mark (hook_events h' n (Awaited_on_finish a r) y)"
  "\<not> list_ex is_timeout_mark (hook_events h' n (Awaited_on_finish a r) y)"
  "\<not> list_ex is_error_mark (hook_events h' n (Awaited_on_finish a r) y)"
  "\<not> list_ex is_success_mark (hook_events h'' n (Awaited_on_error a e) z)"
  "\<not> list_ex is_timeout_mark (hook_events h'' n (Awaited_on_error a e) z)"
  "\<not> list_ex is_error_mark (hook_events h'' n (Awaited_on_error a e) z)"
  by (simp_all add: hook_events_def is_success_mark_def is_timeout_mark_def is_error_mark_def
        split: hook.splits sum.splits)

lemma run_events_rejected:
  assumes "\<not> passes_checks B sk args"
  shows "run_events B sk args tmo =
           (if validate_input_method sk = Base_validate_input
               \<and> snd (validate_input B sk args) = Inr False
            then [Warning_validation_failed] else [])"
    and "execution_count (fst (run B sk args tmo)) = execution_count sk"
proof -
  consider e where "snd (validate_input B sk args) = Inl e"
    | "snd (validate_input B sk args) = Inr False"
    | e where "snd (validate_input B sk args) = Inr True" "check_configuration sk = Inl e"
    | "snd (validate_input B sk args) = Inr True" "check_configuration sk = Inr False"
    using assms unfolding passes_checks_def
    by (cases "snd (validate_input B sk args)"; cases "check_configuration sk") auto
  then have "run_events B sk args tmo =
           (if validate_input_method sk = Base_validate_input
               \<and> snd (validate_input B sk args) = Inr False
            then [Warning_validation_failed] else [])
     \<and> execution_count (fst (run B sk args tmo)) = execution_count sk"
  proof cases
    case 1 then show ?thesis by (simp add: run_events_def run_validate_raises)
  next
    case 2 then show ?thesis by (simp add: run_events_def run_invalid validate_input_fst)
  next
    case 3 then show ?thesis by (simp add: run_events_def run_configuration_raises)
  next
    case 4 then show ?thesis by (simp add: run_events_def run_not_configured)
  qed
  then show "run_events B sk args tmo =
           (if validate_input_method sk = Base_validate_input
               \<and> snd (validate_input B sk args) = Inr False
            then [Warning_validation_failed] else [])"
    and "execution_count (fst (run B sk args tmo)) = execution_count sk" by simp_all
qed

lemma run_events_passed:
  assumes "passes_checks B sk args"
  shows "run_events B sk args tmo =
     hook_events (on_start sk) ''on_start'' (Awaited_on_start args) args
     @ [Info_running (name sk) args, Awaited_execute args]
     @ (case wait_for (execute sk args) (actual_timeout tmo sk) of
          Inr result \<Rightarrow>
            hook_events (on_finish sk) ''on_finish'' (Awaited_on_finish args result) (args, result)
            @ [Info_finished (name sk)]
        | Inl (TimeoutError m) \<Rightarrow>
            Error_timeout (timeout_message sk (actual_timeout tmo sk))
            # hook_events (on_error sk) ''on_error''
                (Awaited_on_error args (TimeoutError (timeout_message sk (actual_timeout tmo sk))))
                (args, TimeoutError (timeout_message sk (actual_timeout tmo sk)))
        | Inl e \<Rightarrow>
            Error_execution_failure (name sk) e
            # hook_events (on_error sk) ''on_error'' (Awaited_on_error args e) (args, e))"
  using assms unfolding passes_checks_def run_events_def
  by (simp add: run_passed Let_def split: sum.splits py_exc.splits)

lemma run_count_passed:
  assumes "passes_checks B sk args"
  shows "execution_count (fst (run B sk args tmo)) =
     (case wait_for (execute sk args) (actual_timeout tmo sk) of
        Inr result \<Rightarrow> execution_count sk + 1 | Inl e \<Rightarrow> execution_count sk)"
  using assms unfolding passes_checks_def
  by (simp add: run_passed Let_def split: sum.splits py_exc.splits)

lemma run_result_passed:
  assumes "passes_checks B sk args"
  shows "snd (run B sk args tmo) =
     (case wait_for (execute sk args) (actual_timeout tmo sk) of
        Inr result \<Rightarrow> Inr result
      | Inl (TimeoutError m) \<Rightarrow>
          Inr (format_error B sk (timeout_message sk (actual_timeout tmo sk)))
      | Inl e \<Rightarrow> Inr (format_error B sk (''An unexpected error occurred: '' @ str_exc e)))"
  using assms unfolding passes_checks_def
  by (simp add: run_passed Let_def split: sum.splits py_exc.splits)

section \<open>Properties of the specification\<close>

text \<open>
  C1, as amended. A call of \<open>run\<close> increments \<open>execution_count\<close> by exactly 1 when it goes
  through the success path and leaves it unchanged otherwise; the success path is taken
  exactly when both guards pass and \<open>execute\<close> returns within the deadline. At most one of
  the success, timeout and error paths executes in a call: exactly one when input
  validation and the configuration check pass, none when a guard rejects the call or
  raises.
\<close>

theorem run_execution_count:
  "execution_count (fst (run B sk args tmo)) =
     execution_count sk + (if list_ex is_success_mark (run_events B sk args tmo) then 1 else 0)
   \<and> (list_ex is_success_mark (run_events B sk args tmo) \<longleftrightarrow>
        passes_checks B sk args
        \<and> (\<exists>result. wait_for (execute sk args) (actual_timeout tmo sk) = Inr result))
   \<and> paths_executed (run_events B sk args tmo) \<le> 1
   \<and> (passes_checks B sk args \<longrightarrow> paths_executed (run_events B sk args tmo) = 1)
   \<and> (\<not> passes_checks B sk args \<longrightarrow> paths_executed (run_events B sk args tmo) = 0)"
proof (cases "passes_checks B sk args")
  case True
  show ?thesis
    using True
    by (simp add: run_events_passed run_count_passed paths_executed_def
          is_success_mark_def is_timeout_mark_def is_error_mark_def
        split: sum.splits py_exc.splits)
next
  case False
  show ?thesis
    using False
    by (simp add: run_events_rejected paths_executed_def
          is_success_mark_def is_timeout_mark_def is_error_mark_def)
qed

lemma ascii_strip_examples:
  "strip ascii_str ''please echo this'' = ''please echo this''"
  "strip ascii_str ''wait for me'' = ''wait for me''"
  "strip ascii_str ''   '' = []"
  "strip ascii_str ''boom'' = ''boom''"
  by (simp_all add: ascii_str_def space_char_def)

lemma echo_passes: "passes_checks ascii_str echo_skill ''please echo this''"
  by (simp add: passes_checks_def validate_input_snd echo_skill_def ascii_strip_examples)

lemma echo_rejects: "\<not> passes_checks ascii_str echo_skill []"
  by (simp add: passes_checks_def validate_input_snd echo_skill_def)

theorem run_execution_count_witness:
  "passes_checks ascii_str echo_skill ''please echo this''
   \<and> execution_count (fst (run ascii_str echo_skill ''please echo this'' None)) = 1
   \<and> paths_executed (run_events ascii_str echo_skill ''please echo this'' None) = 1
   \<and> \<not> passes_checks ascii_str echo_skill []
   \<and> execution_count (fst (run ascii_str echo_skill [] None)) = 0"
proof -
  have w: "wait_for (execute echo_skill ''please echo this'') (actual_timeout None echo_skill)
             = Inr ''please echo this''"
    by (simp add: wait_for_def actual_timeout_def echo_skill_def)
  have c: "execution_count echo_skill = 0"
    by (simp add: echo_skill_def)
  show ?thesis
    using run_execution_count[of ascii_str echo_skill "''please echo this''" None]
      run_execution_count[of ascii_str echo_skill "[]" None]
      echo_passes echo_rejects w c
    by simp
qed

text \<open>
  C1 as stated fails on empty input: \<open>run\<close> returns the formatted validation error before
  the \<open>try\<close> statement, so none of the three paths executes.
\<close>

theorem run_without_path_counterexample:
  "snd (run ascii_str echo_skill [] None)
     = Inr (format_error ascii_str echo_skill ''Input is empty or invalid.'')
   \<and> paths_executed (run_events ascii_str echo_skill [] None) = 0"
proof -
  have v: "snd (validate_input ascii_str echo_skill []) = Inr False"
    by (simp add: validate_input_snd echo_skill_def)
  have "validate_input_method echo_skill = Base_validate_input"
    by (simp add: echo_skill_def)
  with v echo_rejects show ?thesis
    by (simp add: run_invalid run_events_rejected paths_executed_def
          is_success_mark_def is_timeout_mark_def is_error_mark_def)
qed

lemmas call_defs = is_on_start_call_def is_on_finish_call_def is_on_error_call_def
  is_execute_call_def is_hook_failure_def












text \<open>
  C6, as amended. A supplied timeout other than 0 is the deadline; without one, or with
  0, the deadline is the skill's \<open>timeout\<close>. It is the value \<open>run\<close> hands to
  \<open>asyncio.wait_for\<close> and prints in the timeout message.
\<close>

theorem run_deadline:
  "(\<forall>t. tmo = Some t \<and> t \<noteq> 0 \<longrightarrow> actual_timeout tmo sk = t)
   \<and> (tmo = None \<or> tmo = Some 0 \<longrightarrow> actual_timeout tmo sk = timeout sk)
   \<and> (passes_checks B sk args \<longrightarrow>
        snd (run B sk args tmo) =
          (case wait_for (execute sk args)
                  (case tmo of None \<Rightarrow> timeout sk
                   | Some t \<Rightarrow> if t = 0 then timeout sk else t) of
             Inr result \<Rightarrow> Inr result
           | Inl (TimeoutError m) \<Rightarrow>
               Inr (format_error B sk (timeout_message sk
                      (case tmo of None \<Rightarrow> timeout sk
                       | Some t \<Rightarrow> if t = 0 then timeout sk else t)))
           | Inl e \<Rightarrow> Inr (format_error B sk (''An unexpected error occurred: '' @ str_exc e))))"
proof -
  have a: "actual_timeout tmo sk
             = (case tmo of None \<Rightarrow> timeout sk | Some t \<Rightarrow> if t = 0 then timeout sk else t)"
    by (simp add: actual_timeout_def split: option.splits)
  show ?thesis
    unfolding a[symmetric]
    by (auto simp: run_result_passed actual_timeout_def)
qed

theorem run_deadline_witness:
  "actual_timeout (Some 5) echo_skill = 5
   \<and> actual_timeout None echo_skill = 15
   \<and> passes_checks ascii_str echo_skill ''please echo this''
   \<and> snd (run ascii_str echo_skill ''please echo this'' (Some 5)) = Inr ''please echo this''"
proof -
  have "timeout echo_skill = 15" "execute echo_skill ''please echo this'' = Blocking 0 (Inr ''please echo this'')"
    by (simp_all add: echo_skill_def)
  then show ?thesis
    using run_deadline[of "Some 5" echo_skill ascii_str "''please echo this''"]
      run_deadline[of None echo_skill ascii_str "''please echo this''"] echo_passes
    by (simp add: wait_for_def)
qed

text \<open>
  C6 as stated fails for the override 0: the deadline is the skill's 15 seconds, and
  \<open>echo\<close> returns its result where a deadline of 0 would have timed out.
\<close>

theorem run_zero_timeout_counterexample:
  "actual_timeout (Some 0) echo_skill = 15
   \<and> wait_for (execute echo_skill ''please echo this'') 0 = Inl (TimeoutError [])
   \<and> snd (run ascii_str echo_skill ''please echo this'' (Some 0)) = Inr ''please echo this''"
proof -
  have a: "actual_timeout (Some 0) echo_skill = 15"
    by (simp add: actual_timeout_def echo_skill_def)
  have e: "execute echo_skill ''please echo this'' = Blocking 0 (Inr ''please echo this'')"
    by (simp add: echo_skill_def)
  show ?thesis
    using echo_passes by (simp add: run_result_passed a e wait_for_def)
qed




lemma is_hook_failure_simps [simp]:
  "is_hook_failure (Warning_hook_failed n e)"
  "\<not> is_hook_failure Warning_validation_failed"
  "\<not> is_hook_failure (Info_running n a)"
  "\<not> is_hook_failure (Info_finished n)"
  "\<not> is_hook_failure (Error_timeout m)"
  "\<not> is_hook_failure (Error_execution_failure n e)"
  "\<not> is_hook_failure (Awaited_on_start a)"
  "\<not> is_hook_failure (Awaited_execute a)"
  "\<not> is_hook_failure (Awaited_on_finish a r)"
  "\<not> is_hook_failure (Awaited_on_error a e)"
  by (simp_all add: is_hook_failure_def)

lemma hook_events_returning:
  "filter (\<lambda>ev. \<not> is_hook_failure ev) (hook_events h n (Awaited_on_start a) x)
     = hook_events (returning h) n (Awaited_on_start a) x"
  "filter (\<lambda>ev. \<not> is_hook_failure ev) (hook_events h' n (Awaited_on_finish a r) y)
     = hook_events (returning h') n (Awaited_on_finish a r) y"
  "filter (\<lambda>ev. \<not> is_hook_failure ev) (hook_events h'' n (Awaited_on_error a e) z)
     = hook_events (returning h'') n (Awaited_on_error a e) z"
  by (simp_all add: hook_events_def returning_def split: hook.splits sum.splits)

lemma with_returning_hooks_fields [simp]:
  "name (with_returning_hooks sk) = name sk"
  "timeout (with_returning_hooks sk) = timeout sk"
  "execution_count (with_returning_hooks sk) = execution_count sk"
  "logger (with_returning_hooks sk) = logger sk"
  "validate_input_method (with_returning_hooks sk) = validate_input_method sk"
  "check_configuration (with_returning_hooks sk) = check_configuration sk"
  "execute (with_returning_hooks sk) = execute sk"
  "on_start (with_returning_hooks sk) = returning (on_start sk)"
  "on_finish (with_returning_hooks sk) = returning (on_finish sk)"
  "on_error (with_returning_hooks sk) = returning (on_error sk)"
  by (simp_all add: with_returning_hooks_def)

lemma passes_checks_returning [simp]:
  "passes_checks B (with_returning_hooks sk) args = passes_checks B sk args"
  by (simp add: passes_checks_def validate_input_snd)

lemma validate_snd_returning [simp]:
  "snd (validate_input B (with_returning_hooks sk) args) = snd (validate_input B sk args)"
  by (simp add: validate_input_snd)

lemma actual_timeout_returning [simp]:
  "actual_timeout tmo (with_returning_hooks sk) = actual_timeout tmo sk"
  by (simp add: actual_timeout_def split: option.splits)

lemma format_error_returning [simp]:
  "format_error B (with_returning_hooks sk) m = format_error B sk m"
  by (simp add: format_error_def)

lemma timeout_message_returning [simp]:
  "timeout_message (with_returning_hooks sk) d = timeout_message sk d"
  by (simp add: timeout_message_def)

lemma run_result_total:
  "snd (run B sk args tmo) =
     (case snd (validate_input B sk args) of
        Inl e \<Rightarrow> Inl e
      | Inr False \<Rightarrow> Inr (format_error B sk ''Input is empty or invalid.'')
      | Inr True \<Rightarrow>
          (case check_configuration sk of
             Inl e \<Rightarrow> Inl e
           | Inr False \<Rightarrow>
               Inr (format_error B sk ''Configuration check failed (Missing API Keys or Setup).'')
           | Inr True \<Rightarrow>
               (case wait_for (execute sk args) (actual_timeout tmo sk) of
                  Inr result \<Rightarrow> Inr result
                | Inl (TimeoutError m) \<Rightarrow>
                    Inr (format_error B sk (timeout_message sk (actual_timeout tmo sk)))
                | Inl e \<Rightarrow>
                    Inr (format_error B sk (''An unexpected error occurred: '' @ str_exc e)))))"
proof (cases "snd (validate_input B sk args)")
  case (Inl e)
  then show ?thesis by (simp add: run_validate_raises)
next
  case (Inr b)
  show ?thesis
  proof (cases b)
    case False
    with Inr show ?thesis by (simp add: run_invalid)
  next
    case True
    with Inr have v: "snd (validate_input B sk args) = Inr True" by simp
    show ?thesis
    proof (cases "check_configuration sk")
      case (Inl e)
      with v show ?thesis by (simp add: run_configuration_raises)
    next
      case (Inr c)
      show ?thesis
      proof (cases c)
        case False
        with Inr v show ?thesis by (simp add: run_not_configured)
      next
        case True
        with Inr v have "passes_checks B sk args" by (simp add: passes_checks_def)
        then show ?thesis using v Inr True by (simp add: run_result_passed)
      qed
    qed
  qed
qed

text \<open>
  C8. Whatever the hooks raise, \<open>run\<close> returns what it returns when the same hooks return
  normally, with the same counter and the same trace up to the warnings about the hooks;
  \<open>_safe_hook\<close> writes such a warning for each exception of an awaited hook.
\<close>

theorem run_hook_failure:
  "snd (run B sk args tmo) = snd (run B (with_returning_hooks sk) args tmo)
   \<and> execution_count (fst (run B sk args tmo))
       = execution_count (fst (run B (with_returning_hooks sk) args tmo))
   \<and> filter (\<lambda>ev. \<not> is_hook_failure ev) (run_events B sk args tmo)
       = run_events B (with_returning_hooks sk) args tmo
   \<and> (\<forall>body a e. body a = Inl e \<longrightarrow>
        logger (safe_hook (Coroutine_function body) hname awaited a sk)
          = logger sk @ [awaited, Warning_hook_failed hname e])"
proof -
  have 1: "snd (run B sk args tmo) = snd (run B (with_returning_hooks sk) args tmo)"
    by (simp add: run_result_total split: sum.splits bool.splits py_exc.splits)
  have 2: "execution_count (fst (run B sk args tmo))
       = execution_count (fst (run B (with_returning_hooks sk) args tmo))
   \<and> filter (\<lambda>ev. \<not> is_hook_failure ev) (run_events B sk args tmo)
       = run_events B (with_returning_hooks sk) args tmo"
  proof (cases "passes_checks B sk args")
    case True
    then have "passes_checks B (with_returning_hooks sk) args" by simp
    with True show ?thesis
      by (simp add: run_count_passed run_events_passed hook_events_returning
            split: sum.splits py_exc.splits)
  next
    case False
    then have "\<not> passes_checks B (with_returning_hooks sk) args" by simp
    with False show ?thesis
      by (simp add: run_events_rejected)
  qed
  have 3: "\<forall>body a e. body a = Inl e \<longrightarrow>
        logger (safe_hook (Coroutine_function body) hname awaited a sk)
          = logger sk @ [awaited, Warning_hook_failed hname e]"
    by (simp add: safe_hook_def)
  from 1 2 3 show ?thesis by blast
qed

lemma grumpy_passes: "passes_checks ascii_str grumpy_skill ''please echo this''"
  by (simp add: passes_checks_def validate_input_snd grumpy_skill_def echo_skill_def
        ascii_strip_examples)

theorem run_hook_failure_witness:
  "snd (run ascii_str grumpy_skill ''please echo this'' None) = Inr ''please echo this''
   \<and> execution_count (fst (run ascii_str grumpy_skill ''please echo this'' None)) = 1
   \<and> filter is_hook_failure (run_events ascii_str grumpy_skill ''please echo this'' None)
       = [Warning_hook_failed ''on_start'' (Exception ''start failed''),
          Warning_hook_failed ''on_finish'' (TypeError ''finish failed'')]"
proof -
  have p: "passes_checks ascii_str (with_returning_hooks grumpy_skill) ''please echo this''"
    using grumpy_passes by simp
  have w: "wait_for (execute grumpy_skill ''please echo this'') (actual_timeout None grumpy_skill)
             = Inr ''please echo this''"
    by (simp add: wait_for_def actual_timeout_def grumpy_skill_def echo_skill_def)
  have f: "on_start grumpy_skill = Coroutine_function (\<lambda>a. Inl (Exception ''start failed''))"
    "on_finish grumpy_skill = Coroutine_function (\<lambda>a. Inl (TypeError ''finish failed''))"
    "execution_count grumpy_skill = 0"
    by (simp_all add: grumpy_skill_def echo_skill_def)
  have e: "filter is_hook_failure (run_events ascii_str grumpy_skill ''please echo this'' None)
       = [Warning_hook_failed ''on_start'' (Exception ''start failed''),
          Warning_hook_failed ''on_finish'' (TypeError ''finish failed'')]"
    using grumpy_passes w f by (simp add: run_events_passed hook_events_def)
  show ?thesis
    using run_hook_failure[of ascii_str grumpy_skill "''please echo this''" None]
      p w f e
    by (simp add: run_result_passed run_count_passed)
qed

lemma run_observables_cong:
  assumes "name sk' = name sk" "timeout sk' = timeout sk"
    and "execution_count sk' = execution_count sk"
    and "validate_input_method sk' = validate_input_method sk"
    and "check_configuration sk' = check_configuration sk"
    and "execute sk' = execute sk"
    and "\<And>n aw x. hook_events (on_start sk') n aw x = hook_events (on_start sk) n aw x"
    and "\<And>n aw x. hook_events (on_finish sk') n aw x = hook_events (on_finish sk) n aw x"
    and "\<And>n aw x. hook_events (on_error sk') n aw x = hook_events (on_error sk) n aw x"
  shows "snd (run B sk' args tmo) = snd (run B sk args tmo)
     \<and> run_events B sk' args tmo = run_events B sk args tmo
     \<and> execution_count (fst (run B sk' args tmo)) = execution_count (fst (run B sk args tmo))"
proof -
  have v: "snd (validate_input B sk' args) = snd (validate_input B sk args)"
    by (simp add: validate_input_snd assms)
  have a: "actual_timeout tmo sk' = actual_timeout tmo sk"
    by (simp add: actual_timeout_def assms split: option.splits)
  have m: "timeout_message sk' d = timeout_message sk d" for d
    by (simp add: timeout_message_def assms)
  have fe: "format_error B sk' x = format_error B sk x" for x
    by (simp add: format_error_def assms)
  have pc: "passes_checks B sk' args = passes_checks B sk args"
    by (simp add: passes_checks_def v assms)
  have 1: "snd (run B sk' args tmo) = snd (run B sk args tmo)"
    by (simp add: run_result_total v a m fe assms split: sum.splits bool.splits py_exc.splits)
  have 2: "run_events B sk' args tmo = run_events B sk args tmo
     \<and> execution_count (fst (run B sk' args tmo)) = execution_count (fst (run B sk args tmo))"
  proof (cases "passes_checks B sk args")
    case True
    with pc have "passes_checks B sk' args" by simp
    with True show ?thesis
      by (simp add: run_events_passed run_count_passed a m assms
            split: sum.splits py_exc.splits)
  next
    case False
    with pc have "\<not> passes_checks B sk' args" by simp
    with False show ?thesis
      by (simp add: run_events_rejected v assms)
  qed
  from 1 2 show ?thesis by blast
qed

lemma hook_events_plain [simp]: "hook_events (Plain_function f) n aw x = []"
  by (simp add: hook_events_def)

text \<open>
  C10. A hook that is a plain function is never called by \<open>run\<close>: the trace holds no call
  of it, and the result and the trace of \<open>run\<close> do not depend on its body. \<open>_safe_hook\<close>
  leaves the skill as it is.
\<close>

theorem run_plain_hook:
  "(\<forall>f. on_start sk = Plain_function f \<longrightarrow>
      filter is_on_start_call (run_events B sk args tmo) = []
      \<and> (\<forall>g. snd (run B (sk\<lparr>on_start := Plain_function g\<rparr>) args tmo) = snd (run B sk args tmo)
            \<and> run_events B (sk\<lparr>on_start := Plain_function g\<rparr>) args tmo
                = run_events B sk args tmo))
   \<and> (\<forall>f. on_finish sk = Plain_function f \<longrightarrow>
      filter is_on_finish_call (run_events B sk args tmo) = []
      \<and> (\<forall>g. snd (run B (sk\<lparr>on_finish := Plain_function g\<rparr>) args tmo) = snd (run B sk args tmo)
            \<and> run_events B (sk\<lparr>on_finish := Plain_function g\<rparr>) args tmo
                = run_events B sk args tmo))
   \<and> (\<forall>f. on_error sk = Plain_function f \<longrightarrow>
      filter is_on_error_call (run_events B sk args tmo) = []
      \<and> (\<forall>g. snd (run B (sk\<lparr>on_error := Plain_function g\<rparr>) args tmo) = snd (run B sk args tmo)
            \<and> run_events B (sk\<lparr>on_error := Plain_function g\<rparr>) args tmo
                = run_events B sk args tmo))
   \<and> (\<forall>f. safe_hook (Plain_function f) hname awaited a sk = sk)"
proof -
  have none: "filter is_on_start_call (run_events B sk args tmo) = []"
    if "on_start sk = Plain_function f" for f
  proof (cases "passes_checks B sk args")
    case True
    then show ?thesis using that
      by (simp add: run_events_passed hook_events_def call_defs
            split: sum.splits py_exc.splits hook.splits)
  next
    case False
    then show ?thesis by (simp add: run_events_rejected call_defs)
  qed
  have none_f: "filter is_on_finish_call (run_events B sk args tmo) = []"
    if "on_finish sk = Plain_function f" for f
  proof (cases "passes_checks B sk args")
    case True
    then show ?thesis using that
      by (simp add: run_events_passed hook_events_def call_defs
            split: sum.splits py_exc.splits hook.splits)
  next
    case False
    then show ?thesis by (simp add: run_events_rejected call_defs)
  qed
  have none_e: "filter is_on_error_call (run_events B sk args tmo) = []"
    if "on_error sk = Plain_function f" for f
  proof (cases "passes_checks B sk args")
    case True
    then show ?thesis using that
      by (simp add: run_events_passed hook_events_def call_defs
            split: sum.splits py_exc.splits hook.splits)
  next
    case False
    then show ?thesis by (simp add: run_events_rejected call_defs)
  qed
  have same: "snd (run B (sk\<lparr>on_start := Plain_function g\<rparr>) args tmo) = snd (run B sk args tmo)
            \<and> run_events B (sk\<lparr>on_start := Plain_function g\<rparr>) args tmo
                = run_events B sk args tmo"
    if "on_start sk = Plain_function f" for f g
    using run_observables_cong[of "sk\<lparr>on_start := Plain_function g\<rparr>" sk B args tmo] that
    by simp
  have same_f: "snd (run B (sk\<lparr>on_finish := Plain_function g\<rparr>) args tmo) = snd (run B sk args tmo)
            \<and> run_events B (sk\<lparr>on_finish := Plain_function g\<rparr>) args tmo
                = run_events B sk args tmo"
    if "on_finish sk = Plain_function f" for f g
    using run_observables_cong[of "sk\<lparr>on_finish := Plain_function g\<rparr>" sk B args tmo] that
    by simp
  have same_e: "snd (run B (sk\<lparr>on_error := Plain_function g\<rparr>) args tmo) = snd (run B sk args tmo)
            \<and> run_events B (sk\<lparr>on_error := Plain_function g\<rparr>) args tmo
                = run_events B sk args tmo"
    if "on_error sk = Plain_function f" for f g
    using run_observables_cong[of "sk\<lparr>on_error := Plain_function g\<rparr>" sk B args tmo] that
    by simp
  have sh: "\<forall>f. safe_hook (Plain_function f) hname awaited a sk = sk"
    by (simp add: safe_hook_def)
  from none none_f none_e same same_f same_e sh show ?thesis by blast
qed

theorem run_plain_hook_witness:
  "on_error slow_skill = Plain_function (\<lambda>a. Inl (Exception ''on_error ran''))
   \<and> filter is_on_error_call (run_events ascii_str slow_skill ''wait for me'' None) = []
   \<and> snd (run ascii_str (slow_skill\<lparr>on_error := Plain_function (\<lambda>a. Inr ())\<rparr>) ''wait for me'' None)
       = snd (run ascii_str slow_skill ''wait for me'' None)"
proof -
  have "on_error slow_skill = Plain_function (\<lambda>a. Inl (Exception ''on_error ran''))"
    by (simp add: slow_skill_def)
  then show ?thesis
    using run_plain_hook[of slow_skill ascii_str "''wait for me''" None "''on_error''"
        "Awaited_execute []" "()"]
    by blast
qed

lemma list_ex_has_keyword: "list_ex (\<lambda>kw. sublist kw text) kws = has_keyword text kws"
  by (simp add: has_keyword_def list_ex_iff)

lemma detect_intent_find:
  "detect_intent im text = map_option fst (find (\<lambda>(n, kws). has_keyword text kws) im)"
  by (induction im "text" rule: detect_intent.induct) (simp_all add: list_ex_has_keyword)

lemma detect_intent_append:
  "detect_intent (xs @ ys) text =
     (case detect_intent xs text of Some n \<Rightarrow> Some n | None \<Rightarrow> detect_intent ys text)"
  by (induction xs "text" rule: detect_intent.induct) simp_all

lemma detect_intent_None:
  "detect_intent im text = None \<longleftrightarrow> (\<forall>(n, kws)\<in>set im. \<not> has_keyword text kws)"
  by (induction im "text" rule: detect_intent.induct) (auto simp: list_ex_has_keyword)

lemma detect_intent_Some_in:
  "detect_intent im text = Some n \<Longrightarrow> n \<in> fst ` set im"
  by (induction im "text" rule: detect_intent.induct) (auto split: if_splits)

lemma build_intent_map_append:
  "build_intent_map (xs @ ys) = build_intent_map xs @ build_intent_map ys"
  by (simp add: build_intent_map_def)

lemma build_intent_map_Cons:
  "build_intent_map ((n, sk) # xs) = (n, keywords sk) # build_intent_map xs"
  by (simp add: build_intent_map_def)

lemma build_intent_map_keys: "map fst (build_intent_map xs) = map fst xs"
  by (induction xs) (auto simp: build_intent_map_def)

text \<open>
  C2, as amended. \<open>process_input\<close> lower-cases the text and \<open>detect_intent\<close> returns the
  first entry of the intent map, in registration order, one of whose keywords is a
  substring of the lowered text. So when skill A is registered before skill B and the
  lowered text holds a keyword of each, B is not selected; A is selected when no skill
  registered before A matches, and the text then goes to A's \<open>run\<close> (A's name being not
  empty).
\<close>

theorem process_input_first_registered:
  "detect_intent (intent_map br) (lower B text)
     = map_option fst (find (\<lambda>(n, kws). has_keyword (lower B text) kws) (intent_map br))
   \<and> (intent_map br = build_intent_map (skill_objects br)
        \<and> skill_objects br = pre @ (a, skA) # mid @ (b, skB) # post
        \<and> distinct (map fst (skill_objects br))
        \<and> has_keyword (lower B text) (keywords skA)
        \<and> has_keyword (lower B text) (keywords skB)
      \<longrightarrow> detect_intent (intent_map br) (lower B text) \<noteq> Some b
          \<and> ((\<forall>(n, sk)\<in>set pre. \<not> has_keyword (lower B text) (keywords sk))
               \<longrightarrow> detect_intent (intent_map br) (lower B text) = Some a
                   \<and> (a \<noteq> [] \<longrightarrow>
                        process_input B J w br text = route_to_skill B J w br a skA text)))"
proof -
  let ?t = "lower B text"
  have first: "detect_intent (intent_map br) ?t
     = map_option fst (find (\<lambda>(n, kws). has_keyword ?t kws) (intent_map br))"
    by (rule detect_intent_find)
  have second: "detect_intent (intent_map br) ?t \<noteq> Some b
          \<and> ((\<forall>(n, sk)\<in>set pre. \<not> has_keyword ?t (keywords sk))
               \<longrightarrow> detect_intent (intent_map br) ?t = Some a
                   \<and> (a \<noteq> [] \<longrightarrow>
                        process_input B J w br text = route_to_skill B J w br a skA text))"
    if im: "intent_map br = build_intent_map (skill_objects br)"
      and so: "skill_objects br = pre @ (a, skA) # mid @ (b, skB) # post"
      and d: "distinct (map fst (skill_objects br))"
      and ka: "has_keyword ?t (keywords skA)"
      and kb: "has_keyword ?t (keywords skB)"
  proof -
    have im': "intent_map br
        = build_intent_map pre @ (a, keywords skA) # build_intent_map (mid @ (b, skB) # post)"
      by (simp add: im so build_intent_map_append build_intent_map_Cons)
    have at_a: "detect_intent ((a, keywords skA) # build_intent_map (mid @ (b, skB) # post)) ?t
        = Some a"
      using ka by (simp add: list_ex_has_keyword)
    have nb: "b \<notin> fst ` set pre" "a \<noteq> b"
      using d by (auto simp: so)
    have not_b: "detect_intent (intent_map br) ?t \<noteq> Some b"
    proof (cases "detect_intent (build_intent_map pre) ?t")
      case None
      then show ?thesis using at_a nb by (simp add: im' detect_intent_append)
    next
      case (Some n)
      then have "n \<in> fst ` set (build_intent_map pre)" by (rule detect_intent_Some_in)
      then have "n \<in> fst ` set pre"
        using build_intent_map_keys[of pre] by (metis set_map)
      with nb have "n \<noteq> b" by auto
      with Some show ?thesis by (simp add: im' detect_intent_append)
    qed
    have is_a: "detect_intent (intent_map br) ?t = Some a
                   \<and> (a \<noteq> [] \<longrightarrow>
                        process_input B J w br text = route_to_skill B J w br a skA text)"
      if np: "\<forall>(n, sk)\<in>set pre. \<not> has_keyword ?t (keywords sk)"
    proof -
      have "detect_intent (build_intent_map pre) ?t = None"
        using np by (auto simp: detect_intent_None build_intent_map_def)
      then have sa: "detect_intent (intent_map br) ?t = Some a"
        using at_a by (simp add: im' detect_intent_append)
      have "a \<notin> fst ` set pre" using d by (auto simp: so)
      then have "map_of pre a = None" by (simp add: map_of_eq_None_iff)
      then have "map_of (skill_objects br) a = Some skA"
        by (simp add: so map_add_def)
      with sa show ?thesis by (simp add: process_input_def)
    qed
    from not_b is_a show ?thesis by blast
  qed
  from first second show ?thesis by blast
qed


lemma last_n_length: "length (last_n n xs) \<le> n"
  by (simp add: last_n_def)

lemma last_n_last_n_append: "last_n n (last_n n xs @ ys) = last_n n (xs @ ys)"
proof (cases "length xs \<le> n")
  case True
  then show ?thesis by (simp add: last_n_def)
next
  case False
  then have l: "length xs - (length xs - n) = n" by simp
  have "last_n n (last_n n xs @ ys)
          = drop (length ys) (drop (length xs - n) xs) @ drop (length ys - n) ys"
    by (simp add: last_n_def l)
  also have "\<dots> = drop (length xs - n + length ys) xs @ drop (length ys - n) ys"
    by (simp add: add.commute)
  also have "\<dots> = last_n n (xs @ ys)"
    using False by (simp add: last_n_def)
  finally show ?thesis .
qed

lemma history_update_memory:
  assumes "history dm = Some h"
  shows "snd (update_memory J w dm n u r) = Inr ()"
    and "history (fst (update_memory J w dm n u r)) = Some (last_n 10 (h @ [turn u r]))"
proof -
  from assms obtain kvs where kvs: "context_memory dm = JObj kvs"
    by (auto simp: history_def split: json.splits)
  from assms kvs have h: "(case map_of kvs ''conversation_history'' of
      None \<Rightarrow> JArr [] | Some v \<Rightarrow> v) = JArr h"
    by (auto simp: history_def split: option.splits json.splits)
  have m: "map_of (AList.update ''last_result'' (JStr r)
             (AList.update ''last_action'' (JStr n) kvs)) ''conversation_history''
           = map_of kvs ''conversation_history''"
    by (simp add: update_conv')
  show "snd (update_memory J w dm n u r) = Inr ()"
    by (simp add: update_memory_def kvs m h)
  show "history (fst (update_memory J w dm n u r)) = Some (last_n 10 (h @ [turn u r]))"
    by (simp add: update_memory_def kvs m h history_def save_context_def update_conv'
          split: write_result.splits)
qed

lemma update_memory_needs_history:
  assumes "snd (update_memory J w dm n u r) = Inr ()"
  shows "\<exists>h. history dm = Some h"
proof (cases "context_memory dm")
  case (JObj kvs)
  have m: "map_of (AList.update ''last_result'' (JStr r)
             (AList.update ''last_action'' (JStr n) kvs)) ''conversation_history''
           = map_of kvs ''conversation_history''"
    by (simp add: update_conv')
  show ?thesis
  proof (cases "map_of kvs ''conversation_history''")
    case None
    then show ?thesis by (simp add: history_def JObj)
  next
    case (Some v)
    then show ?thesis
      using assms by (cases v) (simp_all add: update_memory_def JObj m history_def)
  qed
qed (use assms in \<open>simp_all add: update_memory_def\<close>)

lemma update_memory_failure_keeps_history:
  assumes "snd (update_memory J w dm n u r) = Inl e"
  shows "history (fst (update_memory J w dm n u r)) = history dm"
proof (cases "context_memory dm")
  case (JObj kvs)
  have m: "map_of (AList.update ''last_result'' (JStr r)
             (AList.update ''last_action'' (JStr n) kvs)) ''conversation_history''
           = map_of kvs ''conversation_history''"
    by (simp add: update_conv')
  show ?thesis
  proof (cases "map_of kvs ''conversation_history''")
    case None
    then show ?thesis using assms by (simp add: update_memory_def JObj m)
  next
    case (Some v)
    then show ?thesis
      using assms by (cases v) (simp_all add: update_memory_def JObj m history_def)
  qed
qed (simp_all add: update_memory_def history_def)

lemma history_update_memory_turns:
  "history dm = Some h \<Longrightarrow>
     snd (update_memory_turns J dm ts) = Inr ()
     \<and> history (fst (update_memory_turns J dm ts))
         = Some (if ts = [] then h else last_n 10 (h @ map turn_of ts))"
proof (induction ts arbitrary: dm h)
  case Nil
  then show ?case by simp
next
  case (Cons t ts)
  obtain w n u r where t: "t = (w, n, u, r)" by (cases t) auto
  obtain dm' where dm': "update_memory J w dm n u r = (dm', Inr ())"
    using history_update_memory(1)[OF Cons.prems, of J w n u r]
    by (cases "update_memory J w dm n u r") auto
  have h': "history dm' = Some (last_n 10 (h @ [turn u r]))"
    using history_update_memory(2)[OF Cons.prems, of J w n u r] dm' by simp
  from Cons.IH[OF h', of ] show ?case
    using last_n_last_n_append[of 10 "h @ [turn u r]" "map turn_of ts"]
    by (simp add: t dm' turn_of_def)
qed

lemma process_input_routed:
  assumes "detect_intent (intent_map br) (lower B text) = Some k" "k \<noteq> []"
    and "map_of (skill_objects br) k = Some sk"
  shows "process_input B J w br text = route_to_skill B J w br k sk text"
  using assms by (simp add: process_input_def)

lemma route_to_skill_result:
  "snd (route_to_skill B J w br k sk args) =
     (case snd (run B sk args None) of
        Inl e \<Rightarrow> Inr (internal_error_message (fst (run B sk args None)))
      | Inr result \<Rightarrow>
          (case snd (update_memory J w (data_manager br)
                      (name (fst (run B sk args None))) args result) of
             Inl e \<Rightarrow> Inr (internal_error_message (fst (run B sk args None)))
           | Inr u \<Rightarrow> Inr result))"
  by (simp add: route_to_skill_def Let_def split: prod.splits sum.splits)

lemma run_name [simp]: "name (fst (run B sk args tmo)) = name sk"
proof (cases "passes_checks B sk args")
  case True
  then show ?thesis
    by (simp add: run_passed passes_checks_def Let_def split: sum.splits py_exc.splits)
next
  case False
  then consider e where "snd (validate_input B sk args) = Inl e"
    | "snd (validate_input B sk args) = Inr False"
    | e where "snd (validate_input B sk args) = Inr True" "check_configuration sk = Inl e"
    | "snd (validate_input B sk args) = Inr True" "check_configuration sk = Inr False"
    unfolding passes_checks_def
    by (cases "snd (validate_input B sk args)"; cases "check_configuration sk") auto
  then show ?thesis
    by cases
      (simp_all add: run_validate_raises run_invalid run_configuration_raises
        run_not_configured validate_input_fst)
qed

lemma internal_error_message_run [simp]:
  "internal_error_message (fst (run B sk args tmo)) = internal_error_message sk"
  by (simp add: internal_error_message_def)

lemma route_to_skill_data_manager:
  assumes "snd (run B sk args None) = Inr result"
  shows "data_manager (fst (route_to_skill B J w br k sk args))
           = fst (update_memory J w (data_manager br) (name sk) args result)"
proof -
  obtain sk' where r: "run B sk args None = (sk', Inr result)"
    using assms by (cases "run B sk args None") auto
  have "name sk' = name sk"
    using run_name[of B sk args None] by (simp add: r)
  then show ?thesis
    by (simp add: route_to_skill_def r Let_def split: prod.splits sum.splits)
qed

lemma turn_of_literal:
  "turn_of = (\<lambda>(w, n, u, r). JObj [(''user'', JStr u), (''assistant'', JStr r)])"
  by (auto simp: turn_of_def turn_def fun_eq_iff)

text \<open>
  C3. One call of \<open>_update_memory\<close> on a stored history \<open>h\<close> succeeds and stores the last 10
  entries of \<open>h\<close> followed by the entry \<open>{"user": input, "assistant": result}\<close>; after any
  successful call at most 10 turns are stored, and a call that raises leaves the history
  as it was. A sequence of turns stores the last 10 of the old history followed by the
  entries of the turns, so after 15 turns exactly the entries of turns 6 to 15 are
  stored, in order. \<open>route_to_skill\<close> makes the one call per processed turn, with the
  user's text and the result of \<open>run\<close>.
\<close>

theorem history_bounded:
  "(history dm = Some h \<longrightarrow>
      snd (update_memory J w dm n u r) = Inr ()
      \<and> history (fst (update_memory J w dm n u r))
          = Some (last_n 10 (h @ [JObj [(''user'', JStr u), (''assistant'', JStr r)]])))
   \<and> (snd (update_memory J w dm n u r) = Inr () \<longrightarrow>
        (\<exists>h'. history (fst (update_memory J w dm n u r)) = Some h' \<and> length h' \<le> 10))
   \<and> (\<forall>e. snd (update_memory J w dm n u r) = Inl e \<longrightarrow>
        history (fst (update_memory J w dm n u r)) = history dm)
   \<and> (history dm = Some h \<and> ts \<noteq> [] \<longrightarrow>
        snd (update_memory_turns J dm ts) = Inr ()
        \<and> history (fst (update_memory_turns J dm ts))
            = Some (last_n 10 (h @ map (\<lambda>(w, n, u, r).
                      JObj [(''user'', JStr u), (''assistant'', JStr r)]) ts)))
   \<and> (history dm = Some h \<and> length ts = 15 \<longrightarrow>
        history (fst (update_memory_turns J dm ts))
          = Some (map (\<lambda>(w, n, u, r). JObj [(''user'', JStr u), (''assistant'', JStr r)])
                   (drop 5 ts)))
   \<and> (history (data_manager br) = Some h \<and> snd (run B sk args None) = Inr result \<longrightarrow>
        snd (route_to_skill B J w br k sk args) = Inr result
        \<and> history (data_manager (fst (route_to_skill B J w br k sk args)))
            = Some (last_n 10 (h @ [JObj [(''user'', JStr args), (''assistant'', JStr result)]])))"
proof -
  have 1: "history dm = Some h \<longrightarrow>
      snd (update_memory J w dm n u r) = Inr ()
      \<and> history (fst (update_memory J w dm n u r))
          = Some (last_n 10 (h @ [JObj [(''user'', JStr u), (''assistant'', JStr r)]]))"
    using history_update_memory[of dm h J w n u r] by (simp add: turn_def)
  have 2: "snd (update_memory J w dm n u r) = Inr () \<longrightarrow>
        (\<exists>h'. history (fst (update_memory J w dm n u r)) = Some h' \<and> length h' \<le> 10)"
  proof
    assume "snd (update_memory J w dm n u r) = Inr ()"
    then obtain h0 where "history dm = Some h0"
      using update_memory_needs_history by blast
    then have "history (fst (update_memory J w dm n u r)) = Some (last_n 10 (h0 @ [turn u r]))"
      by (rule history_update_memory(2))
    then show "\<exists>h'. history (fst (update_memory J w dm n u r)) = Some h' \<and> length h' \<le> 10"
      using last_n_length by blast
  qed
  have 3: "\<forall>e. snd (update_memory J w dm n u r) = Inl e \<longrightarrow>
        history (fst (update_memory J w dm n u r)) = history dm"
    using update_memory_failure_keeps_history by blast
  have 4: "history dm = Some h \<and> ts \<noteq> [] \<longrightarrow>
        snd (update_memory_turns J dm ts) = Inr ()
        \<and> history (fst (update_memory_turns J dm ts))
            = Some (last_n 10 (h @ map (\<lambda>(w, n, u, r).
                      JObj [(''user'', JStr u), (''assistant'', JStr r)]) ts))"
    using history_update_memory_turns[of dm h J ts] by (auto simp: turn_of_literal)
  have 5: "history dm = Some h \<and> length ts = 15 \<longrightarrow>
        history (fst (update_memory_turns J dm ts))
          = Some (map (\<lambda>(w, n, u, r). JObj [(''user'', JStr u), (''assistant'', JStr r)])
                   (drop 5 ts))"
  proof
    assume a: "history dm = Some h \<and> length ts = 15"
    then have "ts \<noteq> []" by auto
    with a have "history (fst (update_memory_turns J dm ts))
        = Some (last_n 10 (h @ map turn_of ts))"
      using history_update_memory_turns[of dm h J ts] by auto
    moreover have "last_n 10 (h @ map turn_of ts) = map turn_of (drop 5 ts)"
      using a by (simp add: last_n_def drop_map)
    ultimately show "history (fst (update_memory_turns J dm ts))
          = Some (map (\<lambda>(w, n, u, r). JObj [(''user'', JStr u), (''assistant'', JStr r)])
                   (drop 5 ts))"
      by (simp add: turn_of_literal)
  qed
  have 6: "history (data_manager br) = Some h \<and> snd (run B sk args None) = Inr result \<longrightarrow>
        snd (route_to_skill B J w br k sk args) = Inr result
        \<and> history (data_manager (fst (route_to_skill B J w br k sk args)))
            = Some (last_n 10 (h @ [JObj [(''user'', JStr args), (''assistant'', JStr result)]]))"
    by (simp add: route_to_skill_result route_to_skill_data_manager history_update_memory
          turn_def)
  from 1 2 3 4 5 6 show ?thesis by blast
qed













theorem process_input_first_registered_witness:
  "has_keyword (lower ascii_str ''Please ECHO the boom'') (keywords echo_skill)
   \<and> has_keyword (lower ascii_str ''Please ECHO the boom'') (keywords fail_skill)
   \<and> detect_intent (intent_map demo_brain) (lower ascii_str ''Please ECHO the boom'')
       = Some ''echo''
   \<and> process_input ascii_str keep_json Written demo_brain ''Please ECHO the boom''
       = route_to_skill ascii_str keep_json Written demo_brain ''echo'' echo_skill
           ''Please ECHO the boom''"
proof -
  have l: "lower ascii_str ''Please ECHO the boom'' = ''please echo the boom''"
    by (simp add: ascii_str_def lower_char_def)
  have ka: "has_keyword (lower ascii_str ''Please ECHO the boom'') (keywords echo_skill)"
    unfolding l by (simp add: has_keyword_def echo_skill_def sublist_code)
  have kb: "has_keyword (lower ascii_str ''Please ECHO the boom'') (keywords fail_skill)"
    unfolding l by (simp add: has_keyword_def fail_skill_def echo_skill_def sublist_code)
  have im: "intent_map demo_brain = build_intent_map (skill_objects demo_brain)"
    by (simp add: demo_brain_def)
  have so: "skill_objects demo_brain
      = [] @ (''echo'', echo_skill) # [] @ (''fail'', fail_skill) # [(''slow'', slow_skill)]"
    by (simp add: demo_brain_def)
  have d: "distinct (map fst (skill_objects demo_brain))"
    by (simp add: demo_brain_def)
  have np: "\<forall>(n, sk)\<in>set []. \<not> has_keyword (lower ascii_str ''Please ECHO the boom'') (keywords sk)"
    by simp
  have ne: "''echo'' \<noteq> []"
    by simp
  from process_input_first_registered[of demo_brain ascii_str "''Please ECHO the boom''"
        "[]" "''echo''" echo_skill "[]" "''fail''" fail_skill "[(''slow'', slow_skill)]"
        keep_json Written]
    im so d ka kb np ne
  have "detect_intent (intent_map demo_brain) (lower ascii_str ''Please ECHO the boom'')
       = Some ''echo''
   \<and> process_input ascii_str keep_json Written demo_brain ''Please ECHO the boom''
       = route_to_skill ascii_str keep_json Written demo_brain ''echo'' echo_skill
           ''Please ECHO the boom''"
    by blast
  with ka kb show ?thesis by blast
qed

text \<open>
  C2 as stated fails with three skills: the text holds a keyword of \<open>fail\<close> and one of
  \<open>slow\<close>, registered after \<open>fail\<close>, and the brain selects neither but \<open>echo\<close>, registered
  first, whose keyword it holds too.
\<close>

theorem process_input_earlier_match_counterexample:
  "skill_objects demo_brain
     = [(''echo'', echo_skill), (''fail'', fail_skill), (''slow'', slow_skill)]
   \<and> intent_map demo_brain = build_intent_map (skill_objects demo_brain)
   \<and> has_keyword (lower ascii_str ''echo boom wait'') (keywords fail_skill)
   \<and> has_keyword (lower ascii_str ''echo boom wait'') (keywords slow_skill)
   \<and> detect_intent (intent_map demo_brain) (lower ascii_str ''echo boom wait'') = Some ''echo''
   \<and> process_input ascii_str keep_json Written demo_brain ''echo boom wait''
       = route_to_skill ascii_str keep_json Written demo_brain ''echo'' echo_skill
           ''echo boom wait''"
proof -
  have l: "lower ascii_str ''echo boom wait'' = ''echo boom wait''"
    by (simp add: ascii_str_def lower_char_def)
  have kf: "has_keyword (lower ascii_str ''echo boom wait'') (keywords fail_skill)"
    unfolding l by (simp add: has_keyword_def fail_skill_def echo_skill_def sublist_code)
  have ks: "has_keyword (lower ascii_str ''echo boom wait'') (keywords slow_skill)"
    unfolding l by (simp add: has_keyword_def slow_skill_def echo_skill_def sublist_code)
  have so: "skill_objects demo_brain
     = [(''echo'', echo_skill), (''fail'', fail_skill), (''slow'', slow_skill)]"
    "intent_map demo_brain = build_intent_map (skill_objects demo_brain)"
    by (simp_all add: demo_brain_def)
  have d: "detect_intent (intent_map demo_brain) (lower ascii_str ''echo boom wait'')
             = Some ''echo''"
    unfolding l
    by (simp add: demo_brain_def build_intent_map_def echo_skill_def sublist_code)
  have m: "map_of (skill_objects demo_brain) ''echo'' = Some echo_skill"
    by (simp add: demo_brain_def)
  have p: "process_input ascii_str keep_json Written demo_brain ''echo boom wait''
       = route_to_skill ascii_str keep_json Written demo_brain ''echo'' echo_skill
           ''echo boom wait''"
    using d m by (simp add: process_input_routed)
  from so kf ks d p show ?thesis by blast
qed


theorem history_bounded_witness:
  "history (data_manager demo_brain) = Some []
   \<and> length fifteen_turns = 15
   \<and> snd (update_memory_turns keep_json (data_manager demo_brain) fifteen_turns) = Inr ()
   \<and> history (fst (update_memory_turns keep_json (data_manager demo_brain) fifteen_turns))
       = Some (map (\<lambda>i. JObj [(''user'', JStr (''echo '' @ str_nat i)),
                              (''assistant'', JStr (''echo '' @ str_nat i))]) [6..<16])
   \<and> history (fst (update_memory keep_json Written (data_manager demo_brain)
                      ''echo'' ''please echo this'' ''please echo this''))
       = Some [JObj [(''user'', JStr ''please echo this''),
                     (''assistant'', JStr ''please echo this'')]]"
proof -
  have h: "history (data_manager demo_brain) = Some []"
    by (simp add: history_def demo_brain_def)
  have l: "length fifteen_turns = 15" "fifteen_turns \<noteq> []"
    by (simp_all add: fifteen_turns_def)
  have d: "map (\<lambda>(w, n, u, r). JObj [(''user'', JStr u), (''assistant'', JStr r)])
             (drop 5 fifteen_turns)
           = map (\<lambda>i. JObj [(''user'', JStr (''echo '' @ str_nat i)),
                             (''assistant'', JStr (''echo '' @ str_nat i))]) [6..<16]"
    by (simp add: fifteen_turns_def drop_map comp_def)
  from history_bounded[of "data_manager demo_brain" "[]" keep_json Written "''echo''"
        "''please echo this''" "''please echo this''" fifteen_turns demo_brain ascii_str
        echo_skill "[]" "[]" "[]"] h l
  have "snd (update_memory_turns keep_json (data_manager demo_brain) fifteen_turns) = Inr ()
   \<and> history (fst (update_memory_turns keep_json (data_manager demo_brain) fifteen_turns))
       = Some (map (\<lambda>(w, n, u, r). JObj [(''user'', JStr u), (''assistant'', JStr r)])
                (drop 5 fifteen_turns))
   \<and> history (fst (update_memory keep_json Written (data_manager demo_brain)
                      ''echo'' ''please echo this'' ''please echo this''))
       = Some (last_n 10 ([] @ [JObj [(''user'', JStr ''please echo this''),
                     (''assistant'', JStr ''please echo this'')]]))"
    by blast
  with h l d show ?thesis by (simp add: last_n_def)
qed

end
